theory Spec2Isabelle
  imports Complex_Main "HOL-Library.Word" "HOL-Library.Sublist"
begin

section \<open>Strings: the library calls of \<open>parsePorts\<close>\<close>

text \<open>
  A Go string is a sequence of bytes, here a \<^typ>\<open>string\<close> (a list of 8-bit characters).
  \<open>strings.Split\<close> and \<open>strings.TrimSpace\<close> belong to Go's standard library; they are
  written out here as the library documents them, for the one separator the program uses.
\<close>

text \<open>
  \<open>strings.Split(s, sep)\<close> for a one-byte separator: cut at the first separator, go on with
  what follows it, and end with the piece that holds no separator.
\<close>

function Split :: "string \<Rightarrow> char \<Rightarrow> string list" where
  "Split s sep =
     (if sep \<in> set s
      then takeWhile (\<lambda>c. c \<noteq> sep) s # Split (tl (dropWhile (\<lambda>c. c \<noteq> sep) s)) sep
      else [s])"
  by pat_completeness auto
termination
proof (relation "measure (\<lambda>(s, sep). length s)")
  show "wf (measure (\<lambda>(s, sep). length s))" by simp
next
  fix s :: string and sep :: char
  assume "sep \<in> set s"
  then have "dropWhile (\<lambda>c. c \<noteq> sep) s \<noteq> []" by simp
  then have "length (tl (dropWhile (\<lambda>c. c \<noteq> sep) s)) < length (dropWhile (\<lambda>c. c \<noteq> sep) s)"
    by (cases "dropWhile (\<lambda>c. c \<noteq> sep) s") simp_all
  also have "\<dots> \<le> length s" by (rule length_dropWhile_le)
  finally show "((tl (dropWhile (\<lambda>c. c \<noteq> sep) s), sep), (s, sep)) \<in> measure (\<lambda>(s, sep). length s)"
    by simp
qed

declare Split.simps [simp del]

text \<open>
  The byte sequences that \<open>unicode.IsSpace\<close> accepts, in UTF-8: the six ASCII space
  characters, U+0085, U+00A0, U+1680, U+2000 to U+200A, U+2028, U+2029, U+202F, U+205F and
  U+3000.
\<close>

definition spaces :: "string list" where
  "spaces =
     [[CHR 0x09], [CHR 0x0A], [CHR 0x0B], [CHR 0x0C], [CHR 0x0D], [CHR 0x20],
      [CHR 0xC2, CHR 0x85], [CHR 0xC2, CHR 0xA0],
      [CHR 0xE1, CHR 0x9A, CHR 0x80],
      [CHR 0xE2, CHR 0x80, CHR 0x80], [CHR 0xE2, CHR 0x80, CHR 0x81],
      [CHR 0xE2, CHR 0x80, CHR 0x82], [CHR 0xE2, CHR 0x80, CHR 0x83],
      [CHR 0xE2, CHR 0x80, CHR 0x84], [CHR 0xE2, CHR 0x80, CHR 0x85],
      [CHR 0xE2, CHR 0x80, CHR 0x86], [CHR 0xE2, CHR 0x80, CHR 0x87],
      [CHR 0xE2, CHR 0x80, CHR 0x88], [CHR 0xE2, CHR 0x80, CHR 0x89],
      [CHR 0xE2, CHR 0x80, CHR 0x8A],
      [CHR 0xE2, CHR 0x80, CHR 0xA8], [CHR 0xE2, CHR 0x80, CHR 0xA9],
      [CHR 0xE2, CHR 0x80, CHR 0xAF], [CHR 0xE2, CHR 0x81, CHR 0x9F],
      [CHR 0xE3, CHR 0x80, CHR 0x80]]"

text \<open>
  \<open>strip es s\<close> removes from the front of \<open>s\<close> every leading occurrence of one of the
  sequences \<open>es\<close>, as \<open>strings.TrimLeftFunc\<close> removes leading runes; an empty sequence
  removes nothing.
\<close>

function strip :: "string list \<Rightarrow> string \<Rightarrow> string" where
  "strip es s =
     (case find (\<lambda>e. e \<noteq> [] \<and> prefix e s) es of
        Some e \<Rightarrow> strip es (drop (length e) s)
      | None \<Rightarrow> s)"
  by pat_completeness auto
termination
proof (relation "measure (\<lambda>(es, s). length s)")
  show "wf (measure (\<lambda>(es, s). length s))" by simp
next
  fix es :: "string list" and s e :: string
  assume "find (\<lambda>e. e \<noteq> [] \<and> prefix e s) es = Some e"
  then have "e \<noteq> []" and "prefix e s"
    by (auto simp: find_Some_iff)
  then have "s \<noteq> []" by auto
  with \<open>e \<noteq> []\<close> show "((es, drop (length e) s), (es, s)) \<in> measure (\<lambda>(es, s). length s)"
    by simp
qed

declare strip.simps [simp del]

text \<open>\<open>strings.TrimSpace\<close>: leading white space goes, then trailing white space.\<close>

definition TrimSpace :: "string \<Rightarrow> string" where
  "TrimSpace s = rev (strip (map rev spaces) (rev (strip spaces s)))"

section \<open>\<open>parsePorts\<close>\<close>

text \<open>
  The loop of \<open>parsePorts\<close> over the pieces, with the slice \<open>ports\<close> as accumulator.
\<close>

fun parsePorts_loop :: "string list \<Rightarrow> string list \<Rightarrow> string list" where
  "parsePorts_loop [] ports = ports"
| "parsePorts_loop (p # parts) ports =
     (let trimmed = TrimSpace p
      in if trimmed \<noteq> [] then parsePorts_loop parts (ports @ [trimmed])
         else parsePorts_loop parts ports)"

text \<open>A \<open>nil\<close> slice and an empty slice are both the empty list.\<close>

definition parsePorts :: "string \<Rightarrow> string list" where
  "parsePorts input =
     (if input = [] then []
      else parsePorts_loop (Split input (CHR '','')) [])"

text \<open>
  What the specification says of \<open>parsePorts\<close>: the comma-separated segments, each with
  its surrounding white space trimmed, the empty ones dropped.
\<close>

definition parsePorts_spec :: "string \<Rightarrow> string list" where
  "parsePorts_spec input = filter (\<lambda>p. p \<noteq> []) (map TrimSpace (Split input (CHR '','')))"

section \<open>Addresses\<close>

text \<open>
  Go's \<open>net.IP\<close> is a byte slice: four bytes for an IPv4 address, sixteen for an IPv6
  address or an IPv4 address in its IPv4-mapped form. \<open>To4\<close> and \<open>String\<close> are the
  library's; \<open>None\<close> stands for the \<open>nil\<close> that \<open>To4\<close> returns.
\<close>

type_synonym IP = "8 word list"

definition To4 :: "IP \<Rightarrow> IP option" where
  "To4 ip =
     (if length ip = 4 then Some ip
      else if length ip = 16 \<and> take 10 ip = replicate 10 0 \<and> ip ! 10 = 0xff \<and> ip ! 11 = 0xff
      then Some (drop 12 ip)
      else None)"

fun itoa :: "nat \<Rightarrow> string" where
  "itoa n =
     (if n < 10 then [''0123456789'' ! n]
      else itoa (n div 10) @ [''0123456789'' ! (n mod 10)])"

declare itoa.simps [simp del]

text \<open>
  \<open>ip.String()\<close>: the dotted decimal form of an IPv4 address. The program calls it only
  on an address whose \<open>To4\<close> is not \<open>nil\<close>; the library's other forms (\<open><nil>\<close> for the
  empty slice, IPv6 text, \<open>?\<close> and hexadecimal digits for a wrong length) are all written
  \<open>?\<close> here.
\<close>

definition IP_String :: "IP \<Rightarrow> string" where
  "IP_String ip =
     (case To4 ip of
        Some [a, b, c, d] \<Rightarrow>
          itoa (unat a) @ ''.'' @ itoa (unat b) @ ''.'' @ itoa (unat c) @ ''.'' @ itoa (unat d)
      | _ \<Rightarrow> ''?'')"

text \<open>\<open>net.JoinHostPort\<close>: a host that holds a colon or a percent sign is bracketed.\<close>

definition JoinHostPort :: "string \<Rightarrow> string \<Rightarrow> string" where
  "JoinHostPort host port =
     (if CHR '':'' \<in> set host \<or> CHR ''%'' \<in> set host then ''['' @ host @ '']:'' @ port
      else host @ '':'' @ port)"

section \<open>The network\<close>

text \<open>
  The resolver and the TCP stack are outside the program. A \<open>world\<close> holds what they
  answer and a trace of the calls made: \<open>dns\<close> is the answer of \<open>net.LookupIP\<close> (the
  addresses, and whether \<open>err\<close> is not \<open>nil\<close>), \<open>tcp k address\<close> the answer to the
  \<open>k\<close>-th call of \<open>net.DialTimeout\<close>. An established connection comes with the time in
  nanoseconds that \<open>time.Since(start)\<close> reads after it; a \<open>time.Duration\<close> is a 64-bit
  count of nanoseconds, and a dial is cut off after \<open>timeout\<close>, so the sums of two of them
  stay far below \<open>2^63\<close> and are taken in \<^typ>\<open>nat\<close>.
\<close>

datatype event = EvLookupIP string | EvDial string string nat

datatype dial_reply = Established nat | DialError

record world =
  dns :: "string \<Rightarrow> IP list \<times> bool"
  tcp :: "nat \<Rightarrow> string \<Rightarrow> dial_reply"
  dialled :: nat
  trace :: "event list"

definition LookupIP :: "world \<Rightarrow> string \<Rightarrow> (IP list \<times> bool) \<times> world" where
  "LookupIP w host = (dns w host, w\<lparr>trace := trace w @ [EvLookupIP host]\<rparr>)"

definition DialTimeout :: "world \<Rightarrow> string \<Rightarrow> string \<Rightarrow> nat \<Rightarrow> dial_reply \<times> world" where
  "DialTimeout w network address d =
     (tcp w (dialled w) address,
      w\<lparr>dialled := Suc (dialled w), trace := trace w @ [EvDial network address d]\<rparr>)"

section \<open>Constants and the result record\<close>

definition maxWorkers :: nat where
  "maxWorkers = 200"

text \<open>\<open>2 * time.Second\<close>, in nanoseconds.\<close>

definition timeout :: nat where
  "timeout = 2 * 1000000000"

definition pingCount :: nat where
  "pingCount = 2"

definition resultFile :: string where
  "resultFile = ''SDresults.json''"

text \<open>
  \<open>AvgResponseMs\<close> is a \<open>float64\<close>. The only values the program stores in it are \<open>0\<close>
  and the quotient of a count of milliseconds (below \<open>2^53\<close>, as it comes from a 64-bit
  count of nanoseconds) by \<open>1\<close> or \<open>2\<close>; such a quotient is a \<open>float64\<close> exactly, so the
  field is the number itself.
\<close>

record Result =
  Host :: string
  IPAddress :: string
  AvgResponseMs :: real
  Reachable :: bool
  OpenPorts :: "string list"

section \<open>\<open>isPortOpen\<close> and \<open>measureLatency\<close>\<close>

definition isPortOpen :: "world \<Rightarrow> string \<Rightarrow> string \<Rightarrow> bool \<times> world" where
  "isPortOpen w host port =
     (case DialTimeout w ''tcp'' (JoinHostPort host port) timeout of
        (DialError, w') \<Rightarrow> (False, w')
      | (Established t, w') \<Rightarrow> (True, w'))"

text \<open>\<open>Duration.Milliseconds\<close>: the whole milliseconds of a count of nanoseconds.\<close>

definition Milliseconds :: "nat \<Rightarrow> nat" where
  "Milliseconds d = d div 1000000"

text \<open>
  The loop of \<open>measureLatency\<close>, from the counter \<open>i\<close> on, with the locals \<open>total\<close> (here \<open>tot\<close>) and
  \<open>success\<close>.
\<close>

function measureLatency_loop :: "nat \<Rightarrow> string \<Rightarrow> world \<Rightarrow> nat \<Rightarrow> nat \<Rightarrow> nat \<times> nat \<times> world" where
  "measureLatency_loop i ip w tot success =
     (if i < pingCount
      then (case DialTimeout w ''tcp'' (JoinHostPort ip ''80'') timeout of
              (Established t, w') \<Rightarrow> measureLatency_loop (i + 1) ip w' (tot + t) (success + 1)
            | (DialError, w') \<Rightarrow> measureLatency_loop (i + 1) ip w' tot success)
      else (tot, success, w))"
  by pat_completeness auto
termination
  by (relation "measure (\<lambda>(i, ip, w, tot, success). pingCount - i)") auto

declare measureLatency_loop.simps [simp del]

definition measureLatency :: "world \<Rightarrow> string \<Rightarrow> real \<times> world" where
  "measureLatency w ip =
     (case measureLatency_loop 0 ip w 0 0 of
        (tot, success, w') \<Rightarrow>
          if success = 0 then (0, w')
          else (real (Milliseconds tot) / real success, w'))"

section \<open>The body of the worker's loop\<close>

text \<open>
  The search for the first IPv4 address: \<open>ipv4Addr\<close> stays empty when the loop finds none.
\<close>

fun select_ipv4 :: "IP list \<Rightarrow> string" where
  "select_ipv4 [] = []"
| "select_ipv4 (ip # ipAddrs) =
     (if To4 ip \<noteq> None then IP_String ip else select_ipv4 ipAddrs)"

text \<open>The loop over the requested ports, appending to \<open>result.OpenPorts\<close>.\<close>

fun probe_ports :: "string \<Rightarrow> string list \<Rightarrow> world \<Rightarrow> Result \<Rightarrow> Result \<times> world" where
  "probe_ports fullHost [] w result = (result, w)"
| "probe_ports fullHost (port # ports) w result =
     (case isPortOpen w fullHost port of
        (True, w') \<Rightarrow>
          probe_ports fullHost ports w' (result\<lparr>OpenPorts := OpenPorts result @ [port]\<rparr>)
      | (False, w') \<Rightarrow> probe_ports fullHost ports w' result)"

text \<open>
  What one pass of the loop does to the state it shares with the other goroutines, in
  order: a send on the result channel, a call of \<open>updateProgress\<close>.
\<close>

datatype op = SendResult Result | UpdateProgress

text \<open>
  One pass of \<open>for sub := range jobs\<close> for the job \<open>sub\<close>: the calls to the network,
  and the operations on the shared state that follow them.
\<close>

definition worker_body :: "string \<Rightarrow> string list \<Rightarrow> world \<Rightarrow> string \<Rightarrow> op list \<times> world" where
  "worker_body domain ports w sub =
     (let fullHost = sub @ ''.'' @ domain
      in case LookupIP w fullHost of
           ((ipAddrs, err), w1) \<Rightarrow>
             if err \<or> ipAddrs = [] then ([UpdateProgress], w1)
             else let ipv4Addr = select_ipv4 ipAddrs
                  in if ipv4Addr = [] then ([UpdateProgress], w1)
                     else case measureLatency w1 ipv4Addr of
                            (avgTime, w2) \<Rightarrow>
                              let result = \<lparr>Host = fullHost, IPAddress = ipv4Addr,
                                            AvgResponseMs = avgTime, Reachable = True,
                                            OpenPorts = []\<rparr>
                              in case (if ports \<noteq> [] then probe_ports fullHost ports w2 result
                                       else (result, w2)) of
                                   (result', w3) \<Rightarrow> ([SendResult result', UpdateProgress], w3))"

section \<open>The pool\<close>

text \<open>
  \<open>main\<close> from the creation of the channels to the call of \<open>saveResults\<close>, and the
  goroutines it starts, as a transition system. A step is one operation on the shared state
  (a channel, the wait group, the counter, the terminal) by \<open>main\<close> or by one goroutine;
  any order of steps is a schedule. The calls a goroutine makes to the network between a
  receive and its next shared operation touch no shared state; they are part of the receive
  step, and the label of the step carries the network's answers.
\<close>

text \<open>What \<open>main\<close> has read: \<open>domain\<close>, \<open>ports\<close> and \<open>subdomains\<close>.\<close>

record config =
  cfg_domain :: string
  cfg_ports :: "string list"
  subdomains :: "string list"

text \<open>
  Where \<open>main\<close> stands: in the loop that starts the workers (with its counter), in the
  loop that sends the jobs (with the candidates not yet sent; \<open>close(jobs)\<close> follows the
  last), at \<open>wg.Wait()\<close>, at \<open>close(results)\<close>, in the loop that drains the results
  (with \<open>allResults\<close>), and at the call \<open>saveResults(allResults)\<close>.
\<close>

datatype main_pc =
    MSpawn nat
  | MFeed "string list"
  | MWait
  | MCloseResults
  | MDrain "Result list"
  | MSave "Result list"

text \<open>
  Where a goroutine stands: \<open>Run ops\<close> has the shared operations \<open>ops\<close> of the current
  pass still to do (\<open>Run []\<close> is at the head of the loop, about to receive), \<open>Print c ops\<close>
  is inside \<open>updateProgress\<close>, between the atomic add that returned \<open>c\<close> and the print;
  \<open>Done\<close> has returned, its deferred \<open>wg.Done()\<close> included.
\<close>

datatype worker_pc = Run "op list" | Print "32 word" "op list" | Done

record pool =
  mpc :: main_pc
  goroutines :: "worker_pc list"
  jobs :: "string list"
  jobs_closed :: bool
  results :: "Result list"
  results_closed :: bool
  wg :: nat
  totalScanned :: "32 word"
  stdout :: "(32 word \<times> nat) list"

definition init :: pool where
  "init = \<lparr>mpc = MSpawn 0, goroutines = [], jobs = [], jobs_closed = False, results = [],
           results_closed = False, wg = 0, totalScanned = 0, stdout = []\<rparr>"

text \<open>
  A step ends in the next state, or is not possible now (a blocked channel operation or
  wait, a goroutine that does not exist or has returned), or panics (a send on a closed
  channel, closing a closed channel, a negative wait group counter).
\<close>

datatype outcome = Next pool | Blocked | Panic

text \<open>Both channels are made with room for \<open>len(subdomains)\<close> elements.\<close>

definition main_step :: "config \<Rightarrow> pool \<Rightarrow> outcome" where
  "main_step cfg s =
     (case mpc s of
        MSpawn i \<Rightarrow>
          if i < maxWorkers
          then Next (s\<lparr>mpc := MSpawn (i + 1), wg := wg s + 1,
                       goroutines := goroutines s @ [Run []]\<rparr>)
          else Next (s\<lparr>mpc := MFeed (subdomains cfg)\<rparr>)
      | MFeed (sub # rest) \<Rightarrow>
          if jobs_closed s then Panic
          else if length (jobs s) < length (subdomains cfg)
          then Next (s\<lparr>mpc := MFeed rest, jobs := jobs s @ [sub]\<rparr>)
          else Blocked
      | MFeed [] \<Rightarrow>
          if jobs_closed s then Panic else Next (s\<lparr>mpc := MWait, jobs_closed := True\<rparr>)
      | MWait \<Rightarrow> if wg s = 0 then Next (s\<lparr>mpc := MCloseResults\<rparr>) else Blocked
      | MCloseResults \<Rightarrow>
          if results_closed s then Panic
          else Next (s\<lparr>mpc := MDrain [], results_closed := True\<rparr>)
      | MDrain allResults \<Rightarrow>
          (case results s of
             res # rest \<Rightarrow>
               Next (s\<lparr>mpc := MDrain (if Reachable res then allResults @ [res] else allResults),
                       results := rest\<rparr>)
           | [] \<Rightarrow> if results_closed s then Next (s\<lparr>mpc := MSave allResults\<rparr>) else Blocked)
      | MSave allResults \<Rightarrow> Blocked)"

text \<open>
  A step of goroutine \<open>g\<close>. At the head of its loop it receives a job and runs the body
  with the network \<open>w\<close>, or returns when the job channel is closed and empty.
  \<open>updateProgress\<close> is the atomic add on the 32-bit counter, then the print of the value
  the add returned beside \<open>total\<close>.
\<close>

definition worker_step :: "config \<Rightarrow> nat \<Rightarrow> world \<Rightarrow> pool \<Rightarrow> outcome" where
  "worker_step cfg g w s =
     (if g < length (goroutines s)
      then (case goroutines s ! g of
              Run [] \<Rightarrow>
                (case jobs s of
                   sub # rest \<Rightarrow>
                     Next (s\<lparr>jobs := rest,
                             goroutines := (goroutines s)
                               [g := Run (fst (worker_body (cfg_domain cfg) (cfg_ports cfg) w sub))]\<rparr>)
                 | [] \<Rightarrow>
                     if jobs_closed s
                     then (if wg s = 0 then Panic
                           else Next (s\<lparr>wg := wg s - 1, goroutines := (goroutines s)[g := Done]\<rparr>))
                     else Blocked)
            | Run (SendResult result # ops) \<Rightarrow>
                if results_closed s then Panic
                else if length (results s) < length (subdomains cfg)
                then Next (s\<lparr>results := results s @ [result],
                             goroutines := (goroutines s)[g := Run ops]\<rparr>)
                else Blocked
            | Run (UpdateProgress # ops) \<Rightarrow>
                Next (s\<lparr>totalScanned := totalScanned s + 1,
                        goroutines := (goroutines s)[g := Print (totalScanned s + 1) ops]\<rparr>)
            | Print current ops \<Rightarrow>
                Next (s\<lparr>stdout := stdout s @ [(current, length (subdomains cfg))],
                        goroutines := (goroutines s)[g := Run ops]\<rparr>)
            | Done \<Rightarrow> Blocked)
      else Blocked)"

datatype label = Main | Go nat world

definition step :: "config \<Rightarrow> pool \<Rightarrow> label \<Rightarrow> outcome" where
  "step cfg s l = (case l of Main \<Rightarrow> main_step cfg s | Go g w \<Rightarrow> worker_step cfg g w s)"

text \<open>A schedule, run from a state: it stops at the first step that is blocked or panics.\<close>

fun exec :: "config \<Rightarrow> pool \<Rightarrow> label list \<Rightarrow> outcome" where
  "exec cfg s [] = Next s"
| "exec cfg s (l # ls) =
     (case step cfg s l of
        Next s' \<Rightarrow> exec cfg s' ls
      | Blocked \<Rightarrow> Blocked
      | Panic \<Rightarrow> Panic)"

section \<open>\<open>saveResults\<close>\<close>

text \<open>
  The files are a map from names to contents; \<open>os.ReadFile\<close> fails on a name that has
  none, and \<open>os.WriteFile\<close>, whose error the program drops, stores the content.
  \<open>encoding/json\<close> is a parameter: \<open>Unmarshal data\<close> is what decoding \<open>data\<close> leaves in
  a \<open>nil\<close> slice and whether it returned an error, \<open>MarshalIndent\<close> is \<open>None\<close> when it
  returns an error.
\<close>

record 'r json =
  Unmarshal :: "string \<Rightarrow> 'r list \<times> bool"
  MarshalIndent :: "'r list \<Rightarrow> string option"

record disk =
  files :: "string \<rightharpoonup> string"
  console :: "string list"

text \<open>\<open>saveResults\<close> of the program with latency sampling (the second in the source).\<close>

definition saveResults :: "'r json \<Rightarrow> disk \<Rightarrow> 'r list \<Rightarrow> disk" where
  "saveResults J d newResults =
     (let existingResults =
            (case files d resultFile of
               Some data \<Rightarrow> fst (Unmarshal J data)
             | None \<Rightarrow> []);
          existingResults = existingResults @ newResults
      in case MarshalIndent J existingResults of
           None \<Rightarrow> d\<lparr>console := console d @ [''Failed to write results'']\<rparr>
         | Some data \<Rightarrow> d\<lparr>files := (files d)(resultFile \<mapsto> data)\<rparr>)"

text \<open>
  \<open>saveResults\<close> of the program without latency sampling (the first in the source), and
  its file name.
\<close>

definition resultFile_v1 :: string where
  "resultFile_v1 = ''subdomain-results.json''"

definition saveResults_v1 :: "'r json \<Rightarrow> disk \<Rightarrow> 'r list \<Rightarrow> disk" where
  "saveResults_v1 J d rs =
     (case MarshalIndent J rs of
        None \<Rightarrow> d\<lparr>console := console d @ [''Failed to write results'']\<rparr>
      | Some data \<Rightarrow> d\<lparr>files := (files d)(resultFile_v1 \<mapsto> data)\<rparr>)"

section \<open>Notions used to state the properties\<close>

text \<open>The elapsed times of the attempts that succeeded, in order.\<close>

fun successes :: "dial_reply list \<Rightarrow> nat list" where
  "successes [] = []"
| "successes (Established t # rs) = t # successes rs"
| "successes (DialError # rs) = successes rs"

definition connected :: "dial_reply \<Rightarrow> bool" where
  "connected r = (case r of Established t \<Rightarrow> True | DialError \<Rightarrow> False)"

text \<open>
  What the network answers to the \<open>pingCount\<close> dials that follow the state \<open>w\<close> when all
  of them go to port 80 of \<open>ip\<close>.
\<close>

definition replies :: "world \<Rightarrow> string \<Rightarrow> dial_reply list" where
  "replies w ip = map (\<lambda>k. tcp w (dialled w + k) (JoinHostPort ip ''80'')) [0..<pingCount]"

text \<open>
  The ports among \<open>ps\<close> whose dial is answered by a connection, when the dials are the
  calls number \<open>k\<close>, \<open>k + 1\<close>, ... of the network \<open>f\<close>, one for each port in order.
\<close>

definition open_ports :: "(nat \<Rightarrow> string \<Rightarrow> dial_reply) \<Rightarrow> nat \<Rightarrow> string \<Rightarrow> string list \<Rightarrow> string list" where
  "open_ports f k host ps =
     map fst (filter (\<lambda>(p, j). connected (f j (JoinHostPort host p)))
                     (zip ps [k..<k + length ps]))"

text \<open>
  Resolution succeeds for the scanner when the resolver returns no error and an address
  list that holds an IPv4 address.
\<close>

definition resolved :: "world \<Rightarrow> string \<Rightarrow> bool" where
  "resolved w host =
     (case dns w host of (ipAddrs, err) \<Rightarrow> \<not> err \<and> list_ex (\<lambda>ip. To4 ip \<noteq> None) ipAddrs)"

text \<open>Networks for the examples: every dial connects after 0.6 ms.\<close>

definition net_fast :: world where
  "net_fast = \<lparr>dns = (\<lambda>h. ([[93, 184, 216, 34]], False)), tcp = (\<lambda>k a. Established 600000),
               dialled = 0, trace = []\<rparr>"

text \<open>
  A resolver that answers with an IPv6 address and then an IPv4 address; the first dial
  connects after 1.5 ms, the second fails, and of the later ones only those to port 443 of
  \<open>www.example.com\<close> connect.
\<close>

definition net_mixed :: world where
  "net_mixed =
     \<lparr>dns = (\<lambda>h. ([[0x20, 0x01, 0x0d, 0xb8, 0, 0, 0, 0, 0, 0, 0, 0, 0, 0, 0, 1],
                     [93, 184, 216, 34]], False)),
      tcp = (\<lambda>k a. if k = 0 then Established 1500000
                    else if k = 1 then DialError
                    else if a = ''www.example.com:443'' then Established 3000000
                    else DialError),
      dialled = 0, trace = []\<rparr>"

text \<open>A resolver that fails, and one that knows an IPv6 address only.\<close>

definition net_down :: world where
  "net_down = \<lparr>dns = (\<lambda>h. ([], True)), tcp = (\<lambda>k a. DialError), dialled = 0, trace = []\<rparr>"

definition net_v6only :: world where
  "net_v6only =
     \<lparr>dns = (\<lambda>h. ([[0x20, 0x01, 0x0d, 0xb8, 0, 0, 0, 0, 0, 0, 0, 0, 0, 0, 0, 1]], False)),
      tcp = (\<lambda>k a. Established 600000), dialled = 0, trace = []\<rparr>"

section \<open>Properties of \<open>parsePorts\<close>\<close>

lemma Split_Nil: "Split [] sep = [[]]"
  by (simp add: Split.simps)

lemma Split_sep_Cons: "Split (sep # s) sep = [] # Split s sep"
  by (subst Split.simps) simp

lemma Split_other_Cons:
  "c \<noteq> sep \<Longrightarrow> Split (c # s) sep = (c # hd (Split s sep)) # tl (Split s sep)"
  using Split.simps [of "c # s" sep] Split.simps [of s sep] by auto

lemma Split_not_Nil: "Split s sep \<noteq> []"
  by (subst Split.simps) simp

lemma Split_append:
  "sep \<notin> set t \<Longrightarrow> Split (t @ s) sep = (t @ hd (Split s sep)) # tl (Split s sep)"
  by (induction t) (auto simp: Split_not_Nil Split_other_Cons)

lemma Split_pieces: "p \<in> set (Split s sep) \<Longrightarrow> sep \<notin> set p"
proof (induction s arbitrary: p)
  case Nil
  then show ?case by (simp add: Split_Nil)
next
  case (Cons c s)
  show ?case
  proof (cases "c = sep")
    case True
    with Cons show ?thesis by (auto simp: Split_sep_Cons)
  next
    case False
    from Split_not_Nil [of s sep] obtain q qs where "Split s sep = q # qs"
      by (cases "Split s sep") auto
    with Cons False show ?thesis by (auto simp: Split_other_Cons)
  qed
qed

lemma Split_join: "concat (map (\<lambda>p. p @ [sep]) (Split s sep)) = s @ [sep]"
proof (induction s)
  case Nil
  then show ?case by (simp add: Split_Nil)
next
  case (Cons c s)
  from Split_not_Nil [of s sep] obtain q qs where "Split s sep = q # qs"
    by (cases "Split s sep") auto
  with Cons show ?case by (cases "c = sep") (auto simp: Split_sep_Cons Split_other_Cons)
qed

lemma parsePorts_loop_eq:
  "parsePorts_loop parts acc = acc @ filter (\<lambda>p. p \<noteq> []) (map TrimSpace parts)"
  by (induction parts arbitrary: acc) (simp_all add: Let_def)

lemma strip_Nil: "strip es [] = []"
proof -
  have "find (\<lambda>e. e \<noteq> [] \<and> prefix e []) es = None"
    by (simp add: find_None_iff)
  then show ?thesis by (subst strip.simps) simp
qed

lemma TrimSpace_Nil: "TrimSpace [] = []"
  by (simp add: TrimSpace_def strip_Nil)

lemma parsePorts_refines: "parsePorts input = parsePorts_spec input"
  by (simp add: parsePorts_def parsePorts_spec_def parsePorts_loop_eq Split_Nil TrimSpace_Nil)

lemma find_space:
  "t \<in> set spaces \<Longrightarrow> find (\<lambda>e. e \<noteq> [] \<and> prefix e (t @ r)) spaces = Some t"
  unfolding spaces_def
  apply (simp only: list.set insert_iff empty_iff)
  apply (elim disjE)
  apply simp_all
  done

lemma space_no_comma: "t \<in> set spaces \<Longrightarrow> CHR '','' \<notin> set t"
  unfolding spaces_def
  apply (simp only: list.set insert_iff empty_iff)
  apply (elim disjE)
  apply simp_all
  done

lemma strip_spaces_concat: "set ts \<subseteq> set spaces \<Longrightarrow> strip spaces (concat ts) = []"
proof (induction ts)
  case Nil
  then show ?case by (simp add: strip_Nil)
next
  case (Cons t ts)
  then have "find (\<lambda>e. e \<noteq> [] \<and> prefix e (t @ concat ts)) spaces = Some t"
    by (simp add: find_space)
  then have "strip spaces (concat (t # ts)) = strip spaces (concat ts)"
    by (subst strip.simps) simp
  with Cons show ?case by simp
qed

lemma TrimSpace_blank: "set ts \<subseteq> set spaces \<Longrightarrow> TrimSpace (concat ts) = []"
  by (simp add: TrimSpace_def strip_spaces_concat strip_Nil)

lemma Split_blank:
  "set ts \<subseteq> insert [CHR '',''] (set spaces) \<Longrightarrow> p \<in> set (Split (concat ts) (CHR '','')) \<Longrightarrow>
     \<exists>us. p = concat us \<and> set us \<subseteq> set spaces"
proof (induction ts arbitrary: p)
  case Nil
  then have "p = concat []" by (simp add: Split_Nil)
  then show ?case by (metis empty_subsetI list.set(1))
next
  case (Cons t ts)
  obtain q qs where q: "Split (concat ts) (CHR '','') = q # qs"
    using Split_not_Nil [of "concat ts" "CHR '',''"]
    by (cases "Split (concat ts) (CHR '','')") auto
  from Cons.prems have ts: "set ts \<subseteq> insert [CHR '',''] (set spaces)" by simp
  show ?case
  proof (cases "t = [CHR '','']")
    case True
    with Cons.prems have "p = [] \<or> p \<in> set (Split (concat ts) (CHR '',''))"
      by (simp add: Split_sep_Cons)
    then show ?thesis
    proof
      assume "p = []"
      then have "p = concat []" by simp
      then show ?thesis by (metis empty_subsetI list.set(1))
    next
      assume "p \<in> set (Split (concat ts) (CHR '',''))"
      with Cons.IH ts show ?thesis by blast
    qed
  next
    case False
    with Cons.prems have t: "t \<in> set spaces" by simp
    then have "Split (concat (t # ts)) (CHR '','') = (t @ q) # qs"
      by (simp add: Split_append space_no_comma q)
    with Cons.prems have "p = t @ q \<or> p \<in> set qs" by simp
    then show ?thesis
    proof
      assume p: "p = t @ q"
      from Cons.IH [of q] ts q obtain us where "q = concat us" "set us \<subseteq> set spaces" by auto
      with p t have "p = concat (t # us) \<and> set (t # us) \<subseteq> set spaces" by simp
      then show ?thesis by blast
    next
      assume "p \<in> set qs"
      with Cons.IH [of p] ts q show ?thesis by simp
    qed
  qed
qed

lemma parsePorts_blank:
  assumes "set ts \<subseteq> insert [CHR '',''] (set spaces)"
  shows "parsePorts (concat ts) = []"
proof -
  have "TrimSpace p = []" if "p \<in> set (Split (concat ts) (CHR '',''))" for p
    using Split_blank [OF assms that] TrimSpace_blank by auto
  then show ?thesis
    by (simp add: parsePorts_refines parsePorts_spec_def filter_empty_conv)
qed

text \<open>
  C10. The pieces that \<open>Split\<close> cuts the input into are its comma-separated segments:
  none holds a comma, and joined by commas they give the input back. \<open>parsePorts\<close> returns
  these segments with their surrounding white space trimmed and the empty ones dropped, in
  order. The empty input, and every input made of commas and white space only, gives the
  empty list.
\<close>

theorem parsePorts_segments:
  "(\<forall>p \<in> set (Split input (CHR '','')). CHR '','' \<notin> set p)
   \<and> concat (map (\<lambda>p. p @ '','') (Split input (CHR '',''))) = input @ '',''
   \<and> parsePorts input = filter (\<lambda>p. p \<noteq> []) (map TrimSpace (Split input (CHR '','')))
   \<and> parsePorts [] = []
   \<and> (\<forall>ts. set ts \<subseteq> insert '','' (set spaces) \<longrightarrow> parsePorts (concat ts) = [])"
proof -
  have "parsePorts input = filter (\<lambda>p. p \<noteq> []) (map TrimSpace (Split input (CHR '','')))"
    using parsePorts_refines [of input] by (simp add: parsePorts_spec_def)
  moreover have "parsePorts [] = []"
    by (simp add: parsePorts_def)
  ultimately show ?thesis
    using Split_pieces [of _ input "CHR '',''"] Split_join [of "CHR '',''" input]
      parsePorts_blank
    by blast
qed

theorem parsePorts_segments_witness:
  "Split '' 80 ,, 443,'' (CHR '','') = ['' 80 '', [], '' 443'', []]
   \<and> parsePorts '' 80 ,, 443,'' = [''80'', ''443'']
   \<and> set ['' '', '','', [CHR 0xC2, CHR 0xA0], [CHR 0x09]] \<subseteq> insert '','' (set spaces)
   \<and> parsePorts (concat ['' '', '','', [CHR 0xC2, CHR 0xA0], [CHR 0x09]]) = []"
proof -
  have sp: "Split '' 80 ,, 443,'' (CHR '','') = ['' 80 '', [], '' 443'', []]"
    by (simp add: Split.simps)
  have ts: "set ['' '', '','', [CHR 0xC2, CHR 0xA0], [CHR 0x09]] \<subseteq> insert '','' (set spaces)"
    by (simp add: spaces_def)
  from parsePorts_segments [of "'' 80 ,, 443,''"]
  have "parsePorts '' 80 ,, 443,''
          = filter (\<lambda>p. p \<noteq> []) (map TrimSpace (Split '' 80 ,, 443,'' (CHR '','')))"
    and blank: "\<forall>ts. set ts \<subseteq> insert '','' (set spaces) \<longrightarrow> parsePorts (concat ts) = []"
    by blast+
  then have "parsePorts '' 80 ,, 443,'' = [''80'', ''443'']"
    by (simp add: sp TrimSpace_def strip.simps spaces_def)
  with sp ts blank show ?thesis by blast
qed

section \<open>Properties of \<open>measureLatency\<close>\<close>

lemma upt_shift: "[0..<Suc n] = 0 # map Suc [0..<n]"
  by (simp add: upt_conv_Cons map_Suc_upt del: upt_Suc)

lemma measureLatency_loop_eq:
  "i \<le> pingCount \<Longrightarrow>
   measureLatency_loop i ip w tot success =
     (let rs = map (\<lambda>k. tcp w (dialled w + k) (JoinHostPort ip ''80'')) [0..<pingCount - i]
      in (tot + sum_list (successes rs), success + length (successes rs),
          w\<lparr>dialled := dialled w + (pingCount - i),
            trace := trace w
              @ replicate (pingCount - i) (EvDial ''tcp'' (JoinHostPort ip ''80'') timeout)\<rparr>))"
proof (induction "pingCount - i" arbitrary: i w tot success)
  case 0
  then have "i = pingCount" by simp
  then show ?case by (subst measureLatency_loop.simps) simp
next
  case (Suc n)
  then have lt: "i < pingCount" and n: "n = pingCount - (i + 1)" and le: "i + 1 \<le> pingCount"
    by simp_all
  have d: "pingCount - i = Suc n" using Suc.hyps(2) by simp
  have IH: "measureLatency_loop (Suc i) ip w' tot' s' =
     (let rs = map (\<lambda>k. tcp w' (dialled w' + k) (JoinHostPort ip ''80'')) [0..<n]
      in (tot' + sum_list (successes rs), s' + length (successes rs),
          w'\<lparr>dialled := dialled w' + n,
            trace := trace w' @ replicate n (EvDial ''tcp'' (JoinHostPort ip ''80'') timeout)\<rparr>))"
    for w' tot' s'
    using Suc.hyps(1) [of "Suc i" w' tot' s'] n le by simp
  show ?case
  proof (cases "tcp w (dialled w) (JoinHostPort ip ''80'')")
    case (Established t)
    then show ?thesis
      using lt
      apply (subst measureLatency_loop.simps)
      apply (simp add: DialTimeout_def IH d upt_shift Let_def o_def del: upt_Suc)
      done
  next
    case DialError
    then show ?thesis
      using lt
      apply (subst measureLatency_loop.simps)
      apply (simp add: DialTimeout_def IH d upt_shift Let_def o_def del: upt_Suc)
      done
  qed
qed

lemma measureLatency_eq:
  "measureLatency w ip =
     (let ts = successes (replies w ip)
      in (if ts = [] then 0 else real (sum_list ts div 1000000) / real (length ts),
          w\<lparr>dialled := dialled w + pingCount,
            trace := trace w
              @ replicate pingCount (EvDial ''tcp'' (JoinHostPort ip ''80'') timeout)\<rparr>))"
  by (simp add: measureLatency_def measureLatency_loop_eq replies_def Let_def Milliseconds_def)

lemma truncated_ms_bounds:
  "real (n div 1000000) \<le> real n / 1000000 \<and> real n / 1000000 < real (n div 1000000) + 1"
proof -
  have "(n div 1000000) * 1000000 \<le> n" by simp
  then have "real ((n div 1000000) * 1000000) \<le> real n" by (rule of_nat_mono)
  then have a: "real (n div 1000000) \<le> real n / 1000000" by simp
  have "n < 1000000 + n div 1000000 * 1000000" by (rule dividend_less_div_times) simp
  then have "n < (n div 1000000 + 1) * 1000000" by (simp add: algebra_simps)
  then have "real n < real ((n div 1000000 + 1) * 1000000)" by (simp only: of_nat_less_iff)
  then have b: "real n / 1000000 < real (n div 1000000) + 1" by simp
  from a b show ?thesis ..
qed

text \<open>
  C4 (as the code has it). With \<open>ts\<close> the elapsed times, in nanoseconds, of the attempts
  that succeeded among the \<open>pingCount\<close> attempts: \<open>measureLatency\<close> returns 0 when there is
  none, and else the sum of exactly these times, cut down to whole milliseconds, divided by
  their number. That value is at most their arithmetic mean in milliseconds and less than
  one \<open>length ts\<close>-th of a millisecond below it.
\<close>

theorem measureLatency_truncated_mean:
  "fst (measureLatency w ip) =
     (let ts = successes (replies w ip)
      in if ts = [] then 0 else real (sum_list ts div 1000000) / real (length ts))
   \<and> (let ts = successes (replies w ip); mean = real (sum_list ts) / 1000000 / real (length ts)
      in ts = [] \<or> (fst (measureLatency w ip) \<le> mean
                     \<and> mean - 1 / real (length ts) < fst (measureLatency w ip)))"
proof -
  let ?ts = "successes (replies w ip)"
  have v: "fst (measureLatency w ip) =
      (if ?ts = [] then 0 else real (sum_list ?ts div 1000000) / real (length ?ts))"
    by (simp add: measureLatency_eq Let_def)
  have "fst (measureLatency w ip) \<le> real (sum_list ?ts) / 1000000 / real (length ?ts)
        \<and> real (sum_list ?ts) / 1000000 / real (length ?ts) - 1 / real (length ?ts)
            < fst (measureLatency w ip)"
    if ne: "?ts \<noteq> []"
  proof -
    from ne have pos: "0 < real (length ?ts)" by simp
    from truncated_ms_bounds [of "sum_list ?ts"]
    have a: "real (sum_list ?ts div 1000000) \<le> real (sum_list ?ts) / 1000000"
      and b: "real (sum_list ?ts) / 1000000 < real (sum_list ?ts div 1000000) + 1"
      by simp_all
    from a pos have "real (sum_list ?ts div 1000000) / real (length ?ts)
        \<le> real (sum_list ?ts) / 1000000 / real (length ?ts)"
      by (rule divide_right_mono [OF _ less_imp_le])
    moreover from b pos have "real (sum_list ?ts) / 1000000 / real (length ?ts)
        < (real (sum_list ?ts div 1000000) + 1) / real (length ?ts)"
      by (rule divide_strict_right_mono)
    then have "real (sum_list ?ts) / 1000000 / real (length ?ts) - 1 / real (length ?ts)
        < real (sum_list ?ts div 1000000) / real (length ?ts)"
      by (simp add: add_divide_distrib)
    ultimately show ?thesis using ne v by simp
  qed
  with v show ?thesis by (auto simp: Let_def)
qed

theorem measureLatency_truncated_mean_witness:
  "successes (replies net_fast ''93.184.216.34'') = [600000, 600000]
   \<and> fst (measureLatency net_fast ''93.184.216.34'') = 1 / 2"
proof -
  have ts: "successes (replies net_fast ''93.184.216.34'') = [600000, 600000]"
    by (simp add: replies_def pingCount_def net_fast_def numeral_2_eq_2)
  from measureLatency_truncated_mean [of net_fast "''93.184.216.34''"]
  have "fst (measureLatency net_fast ''93.184.216.34'') = 1 / 2"
    by (simp add: ts Let_def)
  with ts show ?thesis ..
qed

text \<open>
  The claim as the specification states it fails: two attempts that each connect after
  0.6 ms have the mean 0.6 ms, and \<open>measureLatency\<close> returns 0.5.
\<close>

theorem measureLatency_mean_counterexample:
  "successes (replies net_fast ''93.184.216.34'') = [600000, 600000]
   \<and> fst (measureLatency net_fast ''93.184.216.34'')
       \<noteq> real (sum_list [600000, 600000]) / 1000000 / real (length [600000, 600000 :: nat])"
proof -
  have "successes (replies net_fast ''93.184.216.34'') = [600000, 600000]"
    by (simp add: replies_def pingCount_def net_fast_def numeral_2_eq_2)
  moreover from this have "fst (measureLatency net_fast ''93.184.216.34'') = 1 / 2"
    by (simp add: measureLatency_eq Let_def)
  ultimately show ?thesis by simp
qed

section \<open>Properties of the body of the worker's loop\<close>

lemma itoa_digits: "set (itoa n) \<subseteq> set ''0123456789''"
proof (induction n rule: itoa.induct)
  case (1 n)
  show ?case
  proof (cases "n < 10")
    case True
    then have "''0123456789'' ! n \<in> set ''0123456789''" by (intro nth_mem) simp
    with True show ?thesis by (subst itoa.simps) simp
  next
    case False
    have "''0123456789'' ! (n mod 10) \<in> set ''0123456789''" by (intro nth_mem) simp
    with False 1 show ?thesis by (subst itoa.simps) simp
  qed
qed

lemma itoa_not_Nil: "itoa n \<noteq> []"
  by (subst itoa.simps) simp

lemma To4_length: "To4 ip = Some p \<Longrightarrow> length p = 4"
  by (auto simp: To4_def split: if_splits)

lemma IP_String_v4:
  assumes "To4 ip \<noteq> None"
  shows "IP_String ip \<noteq> [] \<and> CHR '':'' \<notin> set (IP_String ip) \<and> CHR ''%'' \<notin> set (IP_String ip)"
proof -
  from assms obtain p where p: "To4 ip = Some p" by auto
  then have "length p = 4" by (rule To4_length)
  then obtain a b c d where abcd: "p = [a, b, c, d]"
    by (auto simp: length_Suc_conv numeral_eq_Suc)
  have "CHR '':'' \<notin> set (itoa n) \<and> CHR ''%'' \<notin> set (itoa n)" for n
    using itoa_digits [of n] by auto
  with p abcd show ?thesis
    by (simp add: IP_String_def)
qed

lemma select_ipv4_find:
  "select_ipv4 ipAddrs =
     (case find (\<lambda>ip. To4 ip \<noteq> None) ipAddrs of None \<Rightarrow> [] | Some ip \<Rightarrow> IP_String ip)"
  by (induction ipAddrs) simp_all

lemma isPortOpen_eq:
  "isPortOpen w host port =
     (connected (tcp w (dialled w) (JoinHostPort host port)),
      w\<lparr>dialled := Suc (dialled w),
        trace := trace w @ [EvDial ''tcp'' (JoinHostPort host port) timeout]\<rparr>)"
  by (simp add: isPortOpen_def DialTimeout_def connected_def split: dial_reply.splits)

lemma open_ports_Nil: "open_ports f k host [] = []"
  by (simp add: open_ports_def)

lemma open_ports_Cons:
  "open_ports f k host (p # ps) =
     (if connected (f k (JoinHostPort host p)) then [p] else []) @ open_ports f (Suc k) host ps"
  by (simp add: open_ports_def upt_conv_Cons del: upt_Suc)

lemma probe_ports_eq:
  "probe_ports host ps w r =
     (r\<lparr>OpenPorts := OpenPorts r @ open_ports (tcp w) (dialled w) host ps\<rparr>,
      w\<lparr>dialled := dialled w + length ps,
        trace := trace w @ map (\<lambda>p. EvDial ''tcp'' (JoinHostPort host p) timeout) ps\<rparr>)"
proof (induction ps arbitrary: w r)
  case Nil
  then show ?case by (simp add: open_ports_Nil)
next
  case (Cons p ps)
  show ?case
    by (cases "connected (tcp w (dialled w) (JoinHostPort host p))")
       (simp_all add: isPortOpen_eq Cons.IH open_ports_Cons)
qed

lemma select_ipv4_Nil_iff: "select_ipv4 ipAddrs = [] \<longleftrightarrow> (\<forall>ip \<in> set ipAddrs. To4 ip = None)"
  by (induction ipAddrs) (auto simp: IP_String_v4)

lemma select_ipv4_first:
  "(\<forall>x \<in> set pre. To4 x = None) \<Longrightarrow> To4 ip \<noteq> None \<Longrightarrow> select_ipv4 (pre @ ip # post) = IP_String ip"
  by (induction pre) simp_all

lemma select_ipv4_plain:
  "CHR '':'' \<notin> set (select_ipv4 ipAddrs) \<and> CHR ''%'' \<notin> set (select_ipv4 ipAddrs)"
  by (induction ipAddrs) (auto simp: IP_String_v4)

lemma worker_body_unresolved:
  assumes "dns w (sub @ ''.'' @ domain) = (ipAddrs, err)" and "err \<or> select_ipv4 ipAddrs = []"
  shows "worker_body domain ports w sub =
           ([UpdateProgress], w\<lparr>trace := trace w @ [EvLookupIP (sub @ ''.'' @ domain)]\<rparr>)"
proof -
  from assms(2) have "err \<or> ipAddrs = [] \<or> select_ipv4 ipAddrs = []" by blast
  with assms(1) show ?thesis
    by (auto simp: worker_body_def LookupIP_def Let_def)
qed

lemma replies_trace: "replies (w\<lparr>trace := tr\<rparr>) ip = replies w ip"
  by (simp add: replies_def)

lemma worker_body_resolved:
  assumes "dns w (sub @ ''.'' @ domain) = (ipAddrs, False)" and "select_ipv4 ipAddrs \<noteq> []"
  shows "worker_body domain ports w sub =
     ([SendResult \<lparr>Host = sub @ ''.'' @ domain, IPAddress = select_ipv4 ipAddrs,
                   AvgResponseMs = fst (measureLatency w (select_ipv4 ipAddrs)),
                   Reachable = True,
                   OpenPorts = open_ports (tcp w) (dialled w + pingCount) (sub @ ''.'' @ domain) ports\<rparr>,
       UpdateProgress],
      w\<lparr>dialled := dialled w + pingCount + length ports,
        trace := trace w @ [EvLookupIP (sub @ ''.'' @ domain)]
          @ replicate pingCount (EvDial ''tcp'' (select_ipv4 ipAddrs @ '':80'') timeout)
          @ map (\<lambda>p. EvDial ''tcp'' (JoinHostPort (sub @ ''.'' @ domain) p) timeout) ports\<rparr>)"
proof -
  from assms(2) have ne: "ipAddrs \<noteq> []" by auto
  have j: "JoinHostPort (select_ipv4 ipAddrs) ''80'' = select_ipv4 ipAddrs @ '':80''"
    using select_ipv4_plain [of ipAddrs] by (simp add: JoinHostPort_def)
  show ?thesis
    using assms ne
    by (cases "ports = []")
       (simp_all add: worker_body_def LookupIP_def Let_def measureLatency_eq replies_trace
          probe_ports_eq open_ports_Nil j)
qed

lemma resolved_iff:
  "resolved w host \<longleftrightarrow> \<not> snd (dns w host) \<and> select_ipv4 (fst (dns w host)) \<noteq> []"
  by (auto simp: resolved_def select_ipv4_Nil_iff list_ex_iff split: prod.splits)

lemma open_ports_subseq: "subseq (open_ports f k host ps) ps"
  by (induction ps arbitrary: k) (auto simp: open_ports_Nil open_ports_Cons)

lemma example_v4: "IP_String [93, 184, 216, 34] = ''93.184.216.34''"
  by (simp add: IP_String_def To4_def itoa.simps)

lemma example_v6: "To4 [0x20, 0x01, 0x0d, 0xb8, 0, 0, 0, 0, 0, 0, 0, 0, 0, 0, 0, 1] = None"
  by (simp add: To4_def)

lemma example_To4: "To4 [93, 184, 216, 34] \<noteq> None"
  by (simp add: To4_def)

text \<open>
  C5. When the resolver returns a non-empty address list without error, the pass of the
  loop sends a result whose \<open>IPAddress\<close> is the text of the first address of the list that
  \<open>To4\<close> accepts; when the list holds no such address, the pass sends no result and makes
  no dial: all it does is the lookup and one \<open>updateProgress\<close>.
\<close>

theorem worker_selects_first_ipv4:
  assumes "dns w (sub @ ''.'' @ domain) = (ipAddrs, False)" and "ipAddrs \<noteq> []"
  shows "(\<forall>pre ip post.
            ipAddrs = pre @ ip # post \<and> (\<forall>x \<in> set pre. To4 x = None) \<and> To4 ip \<noteq> None \<longrightarrow>
            (\<exists>r. fst (worker_body domain ports w sub) = [SendResult r, UpdateProgress]
                 \<and> IPAddress r = IP_String ip))
       \<and> ((\<forall>x \<in> set ipAddrs. To4 x = None) \<longrightarrow>
            worker_body domain ports w sub =
              ([UpdateProgress], w\<lparr>trace := trace w @ [EvLookupIP (sub @ ''.'' @ domain)]\<rparr>))"
proof (intro conjI allI impI)
  fix pre ip post
  assume a: "ipAddrs = pre @ ip # post \<and> (\<forall>x \<in> set pre. To4 x = None) \<and> To4 ip \<noteq> None"
  then have s: "select_ipv4 ipAddrs = IP_String ip" by (simp add: select_ipv4_first)
  with a have "select_ipv4 ipAddrs \<noteq> []" by (simp add: IP_String_v4)
  from worker_body_resolved [OF assms(1) this] s
  show "\<exists>r. fst (worker_body domain ports w sub) = [SendResult r, UpdateProgress]
            \<and> IPAddress r = IP_String ip"
    by simp
next
  assume "\<forall>x \<in> set ipAddrs. To4 x = None"
  then have "select_ipv4 ipAddrs = []" by (simp add: select_ipv4_Nil_iff)
  with worker_body_unresolved [OF assms(1)]
  show "worker_body domain ports w sub =
          ([UpdateProgress], w\<lparr>trace := trace w @ [EvLookupIP (sub @ ''.'' @ domain)]\<rparr>)"
    by simp
qed

theorem worker_selects_first_ipv4_witness:
  "(\<exists>r. fst (worker_body ''example.com'' [''22'', ''443''] net_mixed ''www'')
          = [SendResult r, UpdateProgress] \<and> IPAddress r = ''93.184.216.34'')
   \<and> worker_body ''example.com'' [''22'', ''443''] net_v6only ''www''
       = ([UpdateProgress], net_v6only\<lparr>trace := [EvLookupIP ''www.example.com'']\<rparr>)"
proof -
  have d1: "dns net_mixed (''www'' @ ''.'' @ ''example.com'')
      = ([[0x20, 0x01, 0x0d, 0xb8, 0, 0, 0, 0, 0, 0, 0, 0, 0, 0, 0, 1], [93, 184, 216, 34]], False)"
    by (simp add: net_mixed_def)
  have d2: "dns net_v6only (''www'' @ ''.'' @ ''example.com'')
      = ([[0x20, 0x01, 0x0d, 0xb8, 0, 0, 0, 0, 0, 0, 0, 0, 0, 0, 0, 1]], False)"
    by (simp add: net_v6only_def)
  from worker_selects_first_ipv4 [OF d1, of "[''22'', ''443'']"]
  have "[[0x20, 0x01, 0x0d, 0xb8, 0, 0, 0, 0, 0, 0, 0, 0, 0, 0, 0, 1], [93, 184, 216, 34 :: 8 word]]
          = [[0x20, 0x01, 0x0d, 0xb8, 0, 0, 0, 0, 0, 0, 0, 0, 0, 0, 0, 1]] @ [93, 184, 216, 34] # []
        \<and> (\<forall>x \<in> set [[0x20, 0x01, 0x0d, 0xb8, 0, 0, 0, 0, 0, 0, 0, 0, 0, 0, 0, 1 :: 8 word]]. To4 x = None)
        \<and> To4 [93, 184, 216, 34] \<noteq> None \<longrightarrow>
        (\<exists>r. fst (worker_body ''example.com'' [''22'', ''443''] net_mixed ''www'')
               = [SendResult r, UpdateProgress] \<and> IPAddress r = IP_String [93, 184, 216, 34])"
    by blast
  then have a: "\<exists>r. fst (worker_body ''example.com'' [''22'', ''443''] net_mixed ''www'')
               = [SendResult r, UpdateProgress] \<and> IPAddress r = ''93.184.216.34''"
    by (simp add: example_v6 example_To4 example_v4)
  from worker_selects_first_ipv4 [OF d2, of "[''22'', ''443'']"]
  have "worker_body ''example.com'' [''22'', ''443''] net_v6only ''www''
       = ([UpdateProgress], net_v6only\<lparr>trace := trace net_v6only @ [EvLookupIP (''www'' @ ''.'' @ ''example.com'')]\<rparr>)"
    by (simp add: example_v6)
  then have b: "worker_body ''example.com'' [''22'', ''443''] net_v6only ''www''
       = ([UpdateProgress], net_v6only\<lparr>trace := [EvLookupIP ''www.example.com'']\<rparr>)"
    by (simp add: net_v6only_def)
  from a b show ?thesis ..
qed

lemma worker_body_resolved':
  assumes "resolved w (sub @ ''.'' @ domain)"
  shows "worker_body domain ports w sub =
     ([SendResult \<lparr>Host = sub @ ''.'' @ domain,
                   IPAddress = select_ipv4 (fst (dns w (sub @ ''.'' @ domain))),
                   AvgResponseMs = fst (measureLatency w (select_ipv4 (fst (dns w (sub @ ''.'' @ domain))))),
                   Reachable = True,
                   OpenPorts = open_ports (tcp w) (dialled w + pingCount) (sub @ ''.'' @ domain) ports\<rparr>,
       UpdateProgress],
      w\<lparr>dialled := dialled w + pingCount + length ports,
        trace := trace w @ [EvLookupIP (sub @ ''.'' @ domain)]
          @ replicate pingCount
              (EvDial ''tcp'' (select_ipv4 (fst (dns w (sub @ ''.'' @ domain))) @ '':80'') timeout)
          @ map (\<lambda>p. EvDial ''tcp'' (JoinHostPort (sub @ ''.'' @ domain) p) timeout) ports\<rparr>)"
proof -
  from assms have "dns w (sub @ ''.'' @ domain) = (fst (dns w (sub @ ''.'' @ domain)), False)"
    and "select_ipv4 (fst (dns w (sub @ ''.'' @ domain))) \<noteq> []"
    by (simp_all add: resolved_iff prod_eq_iff)
  then show ?thesis by (rule worker_body_resolved)
qed

lemma worker_body_unresolved':
  assumes "\<not> resolved w (sub @ ''.'' @ domain)"
  shows "worker_body domain ports w sub =
           ([UpdateProgress], w\<lparr>trace := trace w @ [EvLookupIP (sub @ ''.'' @ domain)]\<rparr>)"
proof -
  from assms have "snd (dns w (sub @ ''.'' @ domain))
      \<or> select_ipv4 (fst (dns w (sub @ ''.'' @ domain))) = []"
    by (simp add: resolved_iff)
  with worker_body_unresolved [of w sub domain "fst (dns w (sub @ ''.'' @ domain))"
      "snd (dns w (sub @ ''.'' @ domain))" ports]
  show ?thesis by simp
qed

lemma isPortOpen_iff:
  "fst (isPortOpen w host port) \<longleftrightarrow> (\<exists>t. tcp w (dialled w) (JoinHostPort host port) = Established t)"
  by (cases "tcp w (dialled w) (JoinHostPort host port)") (simp_all add: isPortOpen_eq connected_def)

text \<open>
  C6. For a job that resolves, with a non-empty port list: after the lookup and the
  \<open>pingCount\<close> latency dials, the dials of the pass are one per requested port, in the
  order of the list; the result's \<open>OpenPorts\<close> are the ports whose dial was answered by a
  connection, in that order, a subsequence of the list. \<open>isPortOpen\<close> makes one dial with
  the timeout and returns true exactly when the connection is established.
\<close>

theorem worker_probes_each_port_once:
  assumes "resolved w (sub @ ''.'' @ domain)" and "ports \<noteq> []"
  shows "(\<exists>r. fst (worker_body domain ports w sub) = [SendResult r, UpdateProgress]
             \<and> OpenPorts r = open_ports (tcp w) (dialled w + pingCount) (sub @ ''.'' @ domain) ports
             \<and> subseq (OpenPorts r) ports)
       \<and> drop (length (trace w) + 1 + pingCount) (trace (snd (worker_body domain ports w sub)))
           = map (\<lambda>p. EvDial ''tcp'' (JoinHostPort (sub @ ''.'' @ domain) p) timeout) ports
       \<and> (\<forall>w' host port.
            (fst (isPortOpen w' host port)
               \<longleftrightarrow> (\<exists>t. tcp w' (dialled w') (JoinHostPort host port) = Established t))
            \<and> trace (snd (isPortOpen w' host port))
                = trace w' @ [EvDial ''tcp'' (JoinHostPort host port) timeout])"
  using worker_body_resolved' [OF assms(1), of ports]
  by (simp add: open_ports_subseq isPortOpen_iff) (simp add: isPortOpen_eq)

lemma example_resolved: "resolved net_mixed (''www'' @ ''.'' @ ''example.com'')"
  by (simp add: resolved_def net_mixed_def To4_def)

lemma example_open_ports:
  "open_ports (tcp net_mixed) (dialled net_mixed + pingCount) ''www.example.com''
     [''22'', ''443''] = [''443'']"
  by (simp add: open_ports_Cons open_ports_Nil net_mixed_def pingCount_def JoinHostPort_def
      connected_def)

theorem worker_probes_each_port_once_witness:
  "resolved net_mixed ''www.example.com''
   \<and> (\<exists>r. fst (worker_body ''example.com'' [''22'', ''443''] net_mixed ''www'')
            = [SendResult r, UpdateProgress] \<and> OpenPorts r = [''443''])
   \<and> drop 3 (trace (snd (worker_body ''example.com'' [''22'', ''443''] net_mixed ''www'')))
       = [EvDial ''tcp'' ''www.example.com:22'' timeout, EvDial ''tcp'' ''www.example.com:443'' timeout]"
proof -
  have ne: "[''22'', ''443''] \<noteq> []" by simp
  from worker_probes_each_port_once [OF example_resolved ne]
  have "\<exists>r. fst (worker_body ''example.com'' [''22'', ''443''] net_mixed ''www'')
            = [SendResult r, UpdateProgress] \<and> OpenPorts r = [''443'']"
    and "drop (length (trace net_mixed) + 1 + pingCount)
           (trace (snd (worker_body ''example.com'' [''22'', ''443''] net_mixed ''www'')))
         = map (\<lambda>p. EvDial ''tcp'' (JoinHostPort (''www'' @ ''.'' @ ''example.com'') p) timeout)
             [''22'', ''443'']"
    by (auto simp: example_open_ports)
  moreover have "length (trace net_mixed) + 1 + pingCount = 3"
    by (simp add: net_mixed_def pingCount_def)
  ultimately show ?thesis
    using example_resolved by (simp add: JoinHostPort_def)
qed

text \<open>
  C7. For a job that resolves, with no port requested, the pass sends a result with empty
  \<open>OpenPorts\<close> and \<open>Reachable\<close> true. Every result a pass sends has \<open>Reachable\<close> true, and
  non-empty \<open>OpenPorts\<close> only when the port list is non-empty.
\<close>

theorem worker_no_ports_requested:
  "(resolved w (sub @ ''.'' @ domain) \<longrightarrow>
      (\<exists>r. fst (worker_body domain [] w sub) = [SendResult r, UpdateProgress]
           \<and> OpenPorts r = [] \<and> Reachable r))
   \<and> (\<forall>r. SendResult r \<in> set (fst (worker_body domain ports w sub)) \<longrightarrow>
          Reachable r \<and> (OpenPorts r \<noteq> [] \<longrightarrow> ports \<noteq> []))"
proof -
  have a: "\<exists>r. fst (worker_body domain [] w sub) = [SendResult r, UpdateProgress]
           \<and> OpenPorts r = [] \<and> Reachable r"
    if "resolved w (sub @ ''.'' @ domain)"
    using worker_body_resolved' [OF that, of "[]"] by (simp add: open_ports_Nil)
  have b: "Reachable r \<and> (OpenPorts r \<noteq> [] \<longrightarrow> ports \<noteq> [])"
    if r: "SendResult r \<in> set (fst (worker_body domain ports w sub))" for r
  proof (cases "resolved w (sub @ ''.'' @ domain)")
    case True
    from worker_body_resolved' [OF True, of ports] r show ?thesis
      by (auto simp: open_ports_Nil)
  next
    case False
    from worker_body_unresolved' [OF False, of ports] r show ?thesis by simp
  qed
  from a b show ?thesis by blast
qed

theorem worker_no_ports_requested_witness:
  "resolved net_mixed ''www.example.com''
   \<and> (\<exists>r. fst (worker_body ''example.com'' [] net_mixed ''www'') = [SendResult r, UpdateProgress]
           \<and> OpenPorts r = [] \<and> Reachable r)
   \<and> (\<exists>r. SendResult r \<in> set (fst (worker_body ''example.com'' [''22'', ''443''] net_mixed ''www''))
           \<and> Reachable r \<and> OpenPorts r \<noteq> [] \<and> [''22'', ''443''] \<noteq> [])"
proof -
  from worker_no_ports_requested [of net_mixed "''www''" "''example.com''" "[''22'', ''443'']"]
  have a: "\<exists>r. fst (worker_body ''example.com'' [] net_mixed ''www'') = [SendResult r, UpdateProgress]
           \<and> OpenPorts r = [] \<and> Reachable r"
    and b: "\<forall>r. SendResult r \<in> set (fst (worker_body ''example.com'' [''22'', ''443''] net_mixed ''www'')) \<longrightarrow>
          Reachable r \<and> (OpenPorts r \<noteq> [] \<longrightarrow> [''22'', ''443''] \<noteq> [])"
    using example_resolved by blast+
  from worker_body_resolved' [OF example_resolved, of "[''22'', ''443'']"]
  obtain r where r: "SendResult r \<in> set (fst (worker_body ''example.com'' [''22'', ''443''] net_mixed ''www''))"
    and o: "OpenPorts r = [''443'']"
    by (auto simp: example_open_ports)
  from b r have "Reachable r" by blast
  with r o have "\<exists>r. SendResult r \<in> set (fst (worker_body ''example.com'' [''22'', ''443''] net_mixed ''www''))
           \<and> Reachable r \<and> OpenPorts r \<noteq> [] \<and> [''22'', ''443''] \<noteq> []"
    by auto
  with a example_resolved show ?thesis by simp
qed

text \<open>
  C9. \<open>pingCount\<close> is 2 and the timeout two seconds. \<open>measureLatency\<close> makes exactly two
  dials, one after the other, each with the timeout and each to port 80 of the address it is
  given. In a pass for a job that resolves, whatever the port list, the two dials that
  follow the lookup go to port 80 of the selected IPv4 address; the dials to the requested
  ports come after them.
\<close>

theorem measureLatency_fixed_probe:
  "pingCount = 2 \<and> timeout = 2000000000
   \<and> trace (snd (measureLatency w ip))
       = trace w @ [EvDial ''tcp'' (JoinHostPort ip ''80'') timeout,
                    EvDial ''tcp'' (JoinHostPort ip ''80'') timeout]
   \<and> (resolved w (sub @ ''.'' @ domain) \<longrightarrow>
        (\<exists>r. fst (worker_body domain ports w sub) = [SendResult r, UpdateProgress]
            \<and> trace (snd (worker_body domain ports w sub))
                = trace w @ [EvLookupIP (sub @ ''.'' @ domain)]
                  @ [EvDial ''tcp'' (IPAddress r @ '':80'') timeout,
                     EvDial ''tcp'' (IPAddress r @ '':80'') timeout]
                  @ map (\<lambda>p. EvDial ''tcp'' (JoinHostPort (sub @ ''.'' @ domain) p) timeout) ports))"
proof -
  have "trace (snd (measureLatency w ip))
       = trace w @ [EvDial ''tcp'' (JoinHostPort ip ''80'') timeout,
                    EvDial ''tcp'' (JoinHostPort ip ''80'') timeout]"
    by (simp add: measureLatency_eq Let_def pingCount_def numeral_2_eq_2)
  moreover have "\<exists>r. fst (worker_body domain ports w sub) = [SendResult r, UpdateProgress]
            \<and> trace (snd (worker_body domain ports w sub))
                = trace w @ [EvLookupIP (sub @ ''.'' @ domain)]
                  @ [EvDial ''tcp'' (IPAddress r @ '':80'') timeout,
                     EvDial ''tcp'' (IPAddress r @ '':80'') timeout]
                  @ map (\<lambda>p. EvDial ''tcp'' (JoinHostPort (sub @ ''.'' @ domain) p) timeout) ports"
    if "resolved w (sub @ ''.'' @ domain)"
    using worker_body_resolved' [OF that, of ports]
    by (simp add: pingCount_def numeral_2_eq_2)
  ultimately show ?thesis
    by (simp add: pingCount_def timeout_def)
qed

theorem measureLatency_fixed_probe_witness:
  "resolved net_mixed ''www.example.com''
   \<and> trace (snd (worker_body ''example.com'' [''22'', ''443''] net_mixed ''www''))
       = [EvLookupIP ''www.example.com'',
          EvDial ''tcp'' ''93.184.216.34:80'' 2000000000,
          EvDial ''tcp'' ''93.184.216.34:80'' 2000000000,
          EvDial ''tcp'' ''www.example.com:22'' 2000000000,
          EvDial ''tcp'' ''www.example.com:443'' 2000000000]"
proof -
  from measureLatency_fixed_probe [of net_mixed "''ip''" "''www''" "''example.com''" "[''22'', ''443'']"]
    example_resolved
  obtain r where r: "fst (worker_body ''example.com'' [''22'', ''443''] net_mixed ''www'')
        = [SendResult r, UpdateProgress]"
    and t: "trace (snd (worker_body ''example.com'' [''22'', ''443''] net_mixed ''www''))
        = trace net_mixed @ [EvLookupIP (''www'' @ ''.'' @ ''example.com'')]
          @ [EvDial ''tcp'' (IPAddress r @ '':80'') timeout,
             EvDial ''tcp'' (IPAddress r @ '':80'') timeout]
          @ map (\<lambda>p. EvDial ''tcp'' (JoinHostPort (''www'' @ ''.'' @ ''example.com'') p) timeout)
              [''22'', ''443'']"
    by blast
  from worker_body_resolved' [OF example_resolved, of "[''22'', ''443'']"] r
  have "IPAddress r = select_ipv4 (fst (dns net_mixed (''www'' @ ''.'' @ ''example.com'')))"
    by auto
  also have "\<dots> = ''93.184.216.34''"
    by (simp add: net_mixed_def example_v6 example_To4 example_v4)
  finally have "IPAddress r = ''93.184.216.34''" .
  with t example_resolved show ?thesis
    by (simp add: net_mixed_def JoinHostPort_def timeout_def)
qed

end
